theory Spec2Isabelle
  imports Complex_Main
begin

unbundle bit_operations_syntax

section \<open>The pointer gesture tracker of litegraph.js (src/CanvasPointer.ts)\<close>

text \<open>
  \<^verbatim>\<open>CanvasPointer\<close> turns a stream of pointerdown / pointermove / pointerup events into
  click, double-click and drag callbacks. The embedding below follows the class member by
  member.

  \<^item> JavaScript numbers that carry a position, a time or a threshold are \<open>real\<close> (NaN
    and the infinities are left out); the button index, the button mask and the pointer id
    are \<open>int\<close> (\<open>&\<close> on the masks of the DOM, which are below \<open>2 ^ 16\<close>, is \<open>AND\<close>).
  \<^item> A callback is host code. It is modelled by its identity and by whether a call of it
    returns or throws; every call is appended to \<open>trace\<close>, in the order of execution.
    A callback does not itself touch the tracker.
  \<^item> The element is the capture capability of the DOM: the set of pointer ids it has
    captured. Acquiring and releasing capture are appended to \<open>trace\<close> as well.
  \<^item> A method returns the pair of its outcome (\<open>Returned v\<close>, or \<open>Thrown\<close> when an
    exception leaves it) and the tracker as the method left it.
\<close>

subsection \<open>Data\<close>

record CanvasPointerEvent =
  pointerId :: int
  button :: int
  buttons :: int
  clientX :: real
  clientY :: real
  timeStamp :: real

record callback =
  name :: nat
  throws :: bool

datatype call =
    DragStart callback
  | Drag callback CanvasPointerEvent
  | DragEnd callback CanvasPointerEvent
  | Click callback CanvasPointerEvent
  | DoubleClick callback CanvasPointerEvent
  | Finally callback
  | SetPointerCapture int
  | ReleasePointerCapture int

datatype 'a outcome = Returned 'a | Thrown

text \<open>The static members of the class: \<open>bufferTime\<close>, \<open>doubleClickTime\<close>, and the private
  pair \<open>#maxClickDrift\<close>, \<open>#maxClickDrift2\<close>.\<close>

record config =
  bufferTime :: real
  doubleClickTime :: real
  maxClickDrift :: real
  maxClickDrift2 :: real

text \<open>The instance. \<open>activePointerId\<close> is the field \<open>pointerId\<close> of the class (the event
  has a field of that name too); it is unset until the first \<open>down\<close>. \<open>finally_slot\<close> is
  the private field \<open>#finally\<close>.\<close>

record CanvasPointer =
  element :: "int set"
  activePointerId :: "int option"
  dragStarted :: bool
  eLastDown :: "CanvasPointerEvent option"
  isDouble :: bool
  isDown :: bool
  clearEventsOnReset :: bool
  eDown :: "CanvasPointerEvent option"
  eMove :: "CanvasPointerEvent option"
  eUp :: "CanvasPointerEvent option"
  onDragStart :: "callback option"
  onDrag :: "callback option"
  onDragEnd :: "callback option"
  onClick :: "callback option"
  onDoubleClick :: "callback option"
  finally_slot :: "callback option"
  trace :: "call list"

subsection \<open>Configuration\<close>

definition initial_config :: config where
  "initial_config =
     \<lparr>bufferTime = 150, doubleClickTime = 300, maxClickDrift = 6, maxClickDrift2 = 6 ^ 2\<rparr>"

definition set_maxClickDrift :: "real \<Rightarrow> config \<Rightarrow> config" where
  "set_maxClickDrift v c = (c\<lparr>maxClickDrift := v\<rparr>)\<lparr>maxClickDrift2 := v * v\<rparr>"

text \<open>What code outside the class can do to the static members: assign the two public
  fields, or go through the setter of \<open>maxClickDrift\<close>.\<close>

datatype assignment =
    AssignBufferTime real
  | AssignDoubleClickTime real
  | AssignMaxClickDrift real

fun assign :: "config \<Rightarrow> assignment \<Rightarrow> config" where
  "assign c (AssignBufferTime v) = c\<lparr>bufferTime := v\<rparr>"
| "assign c (AssignDoubleClickTime v) = c\<lparr>doubleClickTime := v\<rparr>"
| "assign c (AssignMaxClickDrift v) = set_maxClickDrift v c"

subsection \<open>Callbacks, capture and exceptions\<close>

definition invoke :: "call \<Rightarrow> callback \<Rightarrow> CanvasPointer \<Rightarrow> unit outcome \<times> CanvasPointer" where
  "invoke c f s =
     (if throws f then Thrown else Returned (), s\<lparr>trace := trace s @ [c]\<rparr>)"

text \<open>\<open>this.cb?.(arg)\<close>: nothing happens when the slot is empty.\<close>

definition invoke_opt ::
  "(callback \<Rightarrow> call) \<Rightarrow> callback option \<Rightarrow> CanvasPointer \<Rightarrow> unit outcome \<times> CanvasPointer" where
  "invoke_opt c slot s =
     (case slot of None \<Rightarrow> (Returned (), s) | Some f \<Rightarrow> invoke (c f) f s)"

text \<open>Sequencing: the rest of a method runs only if the call before it returned.\<close>

fun and_then ::
  "unit outcome \<times> CanvasPointer \<Rightarrow> (CanvasPointer \<Rightarrow> 'a outcome \<times> CanvasPointer)
     \<Rightarrow> 'a outcome \<times> CanvasPointer" where
  "and_then (Returned u, s) k = k s"
| "and_then (Thrown, s) k = (Thrown, s)"

text \<open>An unset pointer id reaches the element as \<open>undefined\<close>, which the DOM reads as 0.\<close>

definition pointer_arg :: "int option \<Rightarrow> int" where
  "pointer_arg p = (case p of None \<Rightarrow> 0 | Some i \<Rightarrow> i)"

definition setPointerCapture :: "int \<Rightarrow> CanvasPointer \<Rightarrow> CanvasPointer" where
  "setPointerCapture p s =
     s\<lparr>element := insert p (element s), trace := trace s @ [SetPointerCapture p]\<rparr>"

definition hasPointerCapture :: "int \<Rightarrow> CanvasPointer \<Rightarrow> bool" where
  "hasPointerCapture p s = (p \<in> element s)"

definition releasePointerCapture :: "int \<Rightarrow> CanvasPointer \<Rightarrow> CanvasPointer" where
  "releasePointerCapture p s =
     s\<lparr>element := element s - {p}, trace := trace s @ [ReleasePointerCapture p]\<rparr>"

subsection \<open>Distance\<close>

text \<open>Modelled from the spec: \<open>dist2\<close> is imported from \<open>./measure\<close>, which is not among the
  sources; the specification describes it as the squared Euclidean distance between two
  points of the plane.\<close>

definition dist2 :: "real \<Rightarrow> real \<Rightarrow> real \<Rightarrow> real \<Rightarrow> real" where
  "dist2 ax ay bx by = (bx - ax) * (bx - ax) + (by - ay) * (by - ay)"

definition hasSamePosition :: "CanvasPointerEvent \<Rightarrow> CanvasPointerEvent \<Rightarrow> real \<Rightarrow> bool" where
  "hasSamePosition a b tolerance2 =
     (let drift = dist2 (clientX a) (clientY a) (clientX b) (clientY b)
      in drift \<le> tolerance2)"

subsection \<open>The methods\<close>

text \<open>The setter of \<open>finally\<close>: \<open>try { this.#finally?.() } finally { this.#finally = value }\<close>.
  The store happens on both exits of the call.\<close>

definition set_finally :: "callback option \<Rightarrow> CanvasPointer \<Rightarrow> unit outcome \<times> CanvasPointer" where
  "set_finally v s =
     (case invoke_opt Finally (finally_slot s) s of
        (r, s1) \<Rightarrow> (r, s1\<lparr>finally_slot := v\<rparr>))"

text \<open>\<open>reset\<close>, after the assignment to \<open>finally\<close>: the five \<open>delete\<close> statements, the three
  flags, and the events when \<open>clearEventsOnReset\<close> is set.\<close>

definition clear_session :: "CanvasPointer \<Rightarrow> CanvasPointer" where
  "clear_session s =
     (let s2 = s\<lparr>onClick := None, onDoubleClick := None, onDragStart := None,
                  onDrag := None, onDragEnd := None,
                  isDown := False, isDouble := False, dragStarted := False\<rparr>
      in if clearEventsOnReset s2
         then s2\<lparr>eDown := None, eMove := None, eUp := None\<rparr> else s2)"

text \<open>The last statement of \<open>reset\<close>:
  \<open>if (element.hasPointerCapture(pointerId)) element.releasePointerCapture(pointerId)\<close>.\<close>

definition release_held :: "CanvasPointer \<Rightarrow> CanvasPointer" where
  "release_held s =
     (let p = pointer_arg (activePointerId s)
      in if hasPointerCapture p s then releasePointerCapture p s else s)"

definition reset :: "CanvasPointer \<Rightarrow> unit outcome \<times> CanvasPointer" where
  "reset s =
     and_then (set_finally None s) (\<lambda>s1. (Returned (), release_held (clear_session s1)))"

definition down :: "CanvasPointerEvent \<Rightarrow> CanvasPointer \<Rightarrow> unit outcome \<times> CanvasPointer" where
  "down e s =
     and_then (reset s) (\<lambda>s1.
       (Returned (),
        setPointerCapture (pointerId e)
          (s1\<lparr>eDown := Some e, activePointerId := Some (pointerId e)\<rparr>)))"

definition setDragStarted :: "CanvasPointer \<Rightarrow> unit outcome \<times> CanvasPointer" where
  "setDragStarted s =
     (let s1 = s\<lparr>dragStarted := True\<rparr>
      in and_then (invoke_opt DragStart (onDragStart s1) s1) (\<lambda>s2.
           (Returned (), s2\<lparr>onDragStart := None\<rparr>)))"

definition isDoubleClick :: "config \<Rightarrow> CanvasPointer \<Rightarrow> bool" where
  "isDoubleClick cfg s =
     (case eDown s of None \<Rightarrow> False
      | Some d \<Rightarrow>
          (case eLastDown s of None \<Rightarrow> False
           | Some l \<Rightarrow>
               (let tolerance2 = (3 * maxClickDrift cfg) ^ 2;
                    diff = timeStamp d - timeStamp l
                in diff > 0 \<and> diff < doubleClickTime cfg \<and> hasSamePosition d l tolerance2)))"

definition completeClick ::
  "config \<Rightarrow> CanvasPointerEvent \<Rightarrow> CanvasPointer \<Rightarrow> unit outcome \<times> CanvasPointer" where
  "completeClick cfg e s =
     (case eDown s of None \<Rightarrow> (Returned (), s)
      | Some d \<Rightarrow>
          (let s1 = s\<lparr>eUp := Some e\<rparr>
           in if dragStarted s1 then invoke_opt (\<lambda>f. DragEnd f e) (onDragEnd s1) s1
              else if \<not> hasSamePosition e d (maxClickDrift2 cfg) then
                and_then (setDragStarted s1) (\<lambda>s2.
                  invoke_opt (\<lambda>f. DragEnd f e) (onDragEnd s2) s2)
              else if onDoubleClick s1 \<noteq> None \<and> isDoubleClick cfg s1 then
                and_then (invoke_opt (\<lambda>f. DoubleClick f e) (onDoubleClick s1) s1) (\<lambda>s2.
                  (Returned (), s2\<lparr>eLastDown := None\<rparr>))
              else
                and_then (invoke_opt (\<lambda>f. Click f e) (onClick s1) s1) (\<lambda>s2.
                  (Returned (), s2\<lparr>eLastDown := Some d\<rparr>))))"

definition move ::
  "config \<Rightarrow> CanvasPointerEvent \<Rightarrow> CanvasPointer \<Rightarrow> unit outcome \<times> CanvasPointer" where
  "move cfg e s =
     (case eDown s of None \<Rightarrow> (Returned (), s)
      | Some d \<Rightarrow>
          if buttons e = 0 then reset s
          else if buttons e AND buttons d = 0 then and_then (completeClick cfg e s) reset
          else
            (let s1 = s\<lparr>eMove := Some e\<rparr>
             in and_then (invoke_opt (\<lambda>f. Drag f e) (onDrag s1) s1) (\<lambda>s2.
                  if dragStarted s2 then (Returned (), s2)
                  else
                    (let longerThanBufferTime =
                           timeStamp e - timeStamp d > bufferTime cfg
                     in if longerThanBufferTime
                           \<or> \<not> hasSamePosition e d (maxClickDrift2 cfg)
                        then setDragStarted s2 else (Returned (), s2)))))"

definition up ::
  "config \<Rightarrow> CanvasPointerEvent \<Rightarrow> CanvasPointer \<Rightarrow> bool outcome \<times> CanvasPointer" where
  "up cfg e s =
     (if Some (button e) \<noteq> map_option button (eDown s) then (Returned False, s)
      else
        and_then (completeClick cfg e s) (\<lambda>s1.
          let dragStarted' = dragStarted s1
          in and_then (reset s1) (\<lambda>s2. (Returned (\<not> dragStarted'), s2))))"

subsection \<open>Reading the trace\<close>

text \<open>The calls made between two states of one run: what the later trace has beyond the
  earlier one.\<close>

definition fired_since :: "CanvasPointer \<Rightarrow> CanvasPointer \<Rightarrow> call list" where
  "fired_since s s' = drop (length (trace s)) (trace s')"

fun is_gesture :: "call \<Rightarrow> bool" where
  "is_gesture (DragStart f) = True"
| "is_gesture (Drag f e) = True"
| "is_gesture (DragEnd f e) = True"
| "is_gesture (Click f e) = True"
| "is_gesture (DoubleClick f e) = True"
| "is_gesture (Finally f) = False"
| "is_gesture (SetPointerCapture p) = False"
| "is_gesture (ReleasePointerCapture p) = False"

fun is_drag :: "call \<Rightarrow> bool" where
  "is_drag (Drag f e) = True"
| "is_drag c = False"

text \<open>A call of \<open>onClick\<close> or \<open>onDoubleClick\<close>; a call of \<open>onDragStart\<close>, \<open>onDrag\<close> or
  \<open>onDragEnd\<close>.\<close>

fun is_click :: "call \<Rightarrow> bool" where
  "is_click (Click f e) = True"
| "is_click (DoubleClick f e) = True"
| "is_click c = False"

fun is_drag_family :: "call \<Rightarrow> bool" where
  "is_drag_family (DragStart f) = True"
| "is_drag_family (Drag f e) = True"
| "is_drag_family (DragEnd f e) = True"
| "is_drag_family c = False"

fun is_finally :: "call \<Rightarrow> bool" where
  "is_finally (Finally f) = True"
| "is_finally c = False"

fun is_release :: "call \<Rightarrow> bool" where
  "is_release (ReleasePointerCapture p) = True"
| "is_release c = False"

text \<open>What \<open>this.cb?.(arg)\<close> calls, and how it ends.\<close>

definition calls_of :: "(callback \<Rightarrow> call) \<Rightarrow> callback option \<Rightarrow> call list" where
  "calls_of c slot = (case slot of None \<Rightarrow> [] | Some f \<Rightarrow> [c f])"

definition outcome_of :: "callback option \<Rightarrow> unit outcome" where
  "outcome_of slot =
     (case slot of None \<Rightarrow> Returned () | Some f \<Rightarrow> if throws f then Thrown else Returned ())"

text \<open>The host delivers the move events of a session one after the other; an exception
  that leaves one handler does not stop the next event.\<close>

fun moves :: "config \<Rightarrow> CanvasPointerEvent list \<Rightarrow> CanvasPointer \<Rightarrow> CanvasPointer" where
  "moves cfg [] s = s"
| "moves cfg (m # ms) s = moves cfg ms (snd (move cfg m s))"

subsection \<open>Concrete trackers and events\<close>

text \<open>The constructor, for an element with the given captured pointers.\<close>

definition new_CanvasPointer :: "int set \<Rightarrow> CanvasPointer" where
  "new_CanvasPointer el =
     \<lparr>element = el, activePointerId = None, dragStarted = False, eLastDown = None,
      isDouble = False, isDown = False, clearEventsOnReset = True,
      eDown = None, eMove = None, eUp = None,
      onDragStart = None, onDrag = None, onDragEnd = None, onClick = None,
      onDoubleClick = None, finally_slot = None, trace = []\<rparr>"

text \<open>An event of the mouse (pointer 1): button, button mask, position, time.\<close>

definition pointer_event :: "int \<Rightarrow> int \<Rightarrow> real \<Rightarrow> real \<Rightarrow> real \<Rightarrow> CanvasPointerEvent" where
  "pointer_event b bs x y t =
     \<lparr>pointerId = 1, button = b, buttons = bs, clientX = x, clientY = y, timeStamp = t\<rparr>"

text \<open>A new tracker on an element with no capture, after \<open>down d\<close>.\<close>

definition tracking :: "CanvasPointerEvent \<Rightarrow> CanvasPointer" where
  "tracking d = snd (down d (new_CanvasPointer {}))"

subsection \<open>The double-click test as the specification words it\<close>

text \<open>The specification's reading of the spatial bound: the squared distance of the two
  down-events against three times the drift.\<close>

definition isDoubleClick_as_claimed ::
  "config \<Rightarrow> CanvasPointerEvent \<Rightarrow> CanvasPointerEvent \<Rightarrow> bool" where
  "isDoubleClick_as_claimed cfg d l =
     (0 < timeStamp d - timeStamp l
      \<and> timeStamp d - timeStamp l < doubleClickTime cfg
      \<and> dist2 (clientX d) (clientY d) (clientX l) (clientY l) \<le> 3 * maxClickDrift cfg)"

section \<open>Configuration: the cached square\<close>

lemma assign_keeps_square:
  "maxClickDrift2 c = maxClickDrift c * maxClickDrift c \<Longrightarrow>
   maxClickDrift2 (assign c a) = maxClickDrift (assign c a) * maxClickDrift (assign c a)"
  by (cases a) (simp_all add: set_maxClickDrift_def)

lemma foldl_assign_keeps_square:
  "maxClickDrift2 c = maxClickDrift c * maxClickDrift c \<Longrightarrow>
   maxClickDrift2 (foldl assign c as) =
     maxClickDrift (foldl assign c as) * maxClickDrift (foldl assign c as)"
  by (induction as arbitrary: c) (simp_all add: assign_keeps_square)

text \<open>
  C7. Right after the setter of \<open>maxClickDrift\<close> ran with a value \<open>v\<close>, the drift is \<open>v\<close> and
  the cached square is \<open>v * v\<close>; and after any sequence of assignments to the static members,
  starting from the initial values of the class, the cached square is the square of the
  drift.
\<close>

theorem maxClickDrift2_in_sync:
  "maxClickDrift (set_maxClickDrift v c) = v
   \<and> maxClickDrift2 (set_maxClickDrift v c) = v * v
   \<and> maxClickDrift2 (foldl assign initial_config as) =
       maxClickDrift (foldl assign initial_config as)
         * maxClickDrift (foldl assign initial_config as)"
proof -
  have "maxClickDrift2 initial_config = maxClickDrift initial_config * maxClickDrift initial_config"
    by (simp add: initial_config_def)
  then show ?thesis
    by (simp add: set_maxClickDrift_def foldl_assign_keeps_square)
qed

section \<open>Events that are ignored\<close>

text \<open>
  C5. In an open session, an up-event whose button is not the button of the session's
  down-event makes \<open>up\<close> return false and leaves the tracker as it was: every field, the
  trace of callback calls and the capture held by the element.
\<close>

theorem up_other_button_ignored:
  "eDown s = Some d \<Longrightarrow> button e \<noteq> button d \<Longrightarrow> up cfg e s = (Returned False, s)"
  by (simp add: up_def)

theorem up_other_button_ignored_witness:
  "eDown ((new_CanvasPointer {1})\<lparr>eDown := Some (pointer_event 0 1 0 0 0)\<rparr>)
     = Some (pointer_event 0 1 0 0 0)
   \<and> button (pointer_event 2 1 3 4 5) \<noteq> button (pointer_event 0 1 0 0 0)
   \<and> up initial_config (pointer_event 2 1 3 4 5)
        ((new_CanvasPointer {1})\<lparr>eDown := Some (pointer_event 0 1 0 0 0)\<rparr>)
      = (Returned False, (new_CanvasPointer {1})\<lparr>eDown := Some (pointer_event 0 1 0 0 0)\<rparr>)"
  using up_other_button_ignored
    [of "(new_CanvasPointer {1})\<lparr>eDown := Some (pointer_event 0 1 0 0 0)\<rparr>"
        "pointer_event 0 1 0 0 0" "pointer_event 2 1 3 4 5" initial_config]
  by (simp add: pointer_event_def)

text \<open>
  C8. When no session is open (\<open>eDown\<close> is null), \<open>up\<close> returns false and leaves the tracker
  as it was: no callback is called, no field changes, capture is not touched.
\<close>

theorem up_without_session_ignored:
  "eDown s = None \<Longrightarrow> up cfg e s = (Returned False, s)"
  by (simp add: up_def)

theorem up_without_session_ignored_witness:
  "eDown (new_CanvasPointer {}) = None
   \<and> up initial_config (pointer_event 0 0 3 4 5) (new_CanvasPointer {})
      = (Returned False, new_CanvasPointer {})"
  using up_without_session_ignored [of "new_CanvasPointer {}" initial_config "pointer_event 0 0 3 4 5"]
  by (simp add: new_CanvasPointer_def)

section \<open>The finally slot\<close>

lemma set_finally_stores: "finally_slot (snd (set_finally v s)) = v"
  by (simp add: set_finally_def invoke_opt_def invoke_def split: option.splits prod.splits)

lemma set_finally_throwing:
  "finally_slot s = Some f \<Longrightarrow> throws f \<Longrightarrow>
   set_finally v s = (Thrown, s\<lparr>trace := trace s @ [Finally f], finally_slot := v\<rparr>)"
  by (simp add: set_finally_def invoke_opt_def invoke_def)

lemma set_finally_returning:
  "finally_slot s = Some f \<Longrightarrow> \<not> throws f \<Longrightarrow>
   set_finally v s = (Returned (), s\<lparr>trace := trace s @ [Finally f], finally_slot := v\<rparr>)"
  by (simp add: set_finally_def invoke_opt_def invoke_def)

lemma set_finally_empty:
  "finally_slot s = None \<Longrightarrow> set_finally v s = (Returned (), s\<lparr>finally_slot := v\<rparr>)"
  by (simp add: set_finally_def invoke_opt_def)

lemma set_finally_trace:
  "trace (snd (set_finally v s)) = trace s @ calls_of Finally (finally_slot s)"
  by (simp add: set_finally_def invoke_opt_def invoke_def calls_of_def split: option.splits)

lemma reset_throwing:
  "finally_slot s = Some f \<Longrightarrow> throws f \<Longrightarrow>
   reset s = (Thrown, s\<lparr>trace := trace s @ [Finally f], finally_slot := None\<rparr>)"
  by (simp add: reset_def set_finally_throwing)

text \<open>
  C9. When the callback held in the finally slot throws during an assignment to the slot,
  the exception leaves the setter and the new value is stored all the same; \<open>reset\<close>, which
  assigns the empty value, is left by the exception with the slot cleared.
\<close>

theorem finally_stored_when_callback_throws:
  assumes "finally_slot s = Some f" and "throws f"
  shows "set_finally v s = (Thrown, s\<lparr>trace := trace s @ [Finally f], finally_slot := v\<rparr>)
         \<and> reset s = (Thrown, s\<lparr>trace := trace s @ [Finally f], finally_slot := None\<rparr>)
         \<and> finally_slot (snd (set_finally v s)) = v
         \<and> finally_slot (snd (reset s)) = None"
  using assms by (simp add: reset_throwing set_finally_throwing)

theorem finally_stored_when_callback_throws_witness:
  "finally_slot ((new_CanvasPointer {})\<lparr>finally_slot := Some \<lparr>name = 1, throws = True\<rparr>\<rparr>)
     = Some \<lparr>name = 1, throws = True\<rparr>
   \<and> throws \<lparr>name = 1, throws = True\<rparr>
   \<and> fst (set_finally (Some \<lparr>name = 2, throws = False\<rparr>)
        ((new_CanvasPointer {})\<lparr>finally_slot := Some \<lparr>name = 1, throws = True\<rparr>\<rparr>)) = Thrown
   \<and> finally_slot (snd (set_finally (Some \<lparr>name = 2, throws = False\<rparr>)
        ((new_CanvasPointer {})\<lparr>finally_slot := Some \<lparr>name = 1, throws = True\<rparr>\<rparr>)))
      = Some \<lparr>name = 2, throws = False\<rparr>
   \<and> fst (reset ((new_CanvasPointer {})\<lparr>finally_slot := Some \<lparr>name = 1, throws = True\<rparr>\<rparr>))
      = Thrown
   \<and> finally_slot
        (snd (reset ((new_CanvasPointer {})\<lparr>finally_slot := Some \<lparr>name = 1, throws = True\<rparr>\<rparr>)))
      = None"
  using finally_stored_when_callback_throws
    [of "(new_CanvasPointer {})\<lparr>finally_slot := Some \<lparr>name = 1, throws = True\<rparr>\<rparr>"
        "\<lparr>name = 1, throws = True\<rparr>" "Some \<lparr>name = 2, throws = False\<rparr>"]
  by simp

section \<open>The double-click test\<close>

text \<open>
  C2, as the code has it. The double-click test passes exactly when there are a current
  down-event and a last completed down-event, the time between them is strictly positive
  and strictly less than \<open>doubleClickTime\<close>, and the squared distance between them is at
  most the square of three times the drift, \<open>(3 * maxClickDrift)\<^sup>2\<close>.
\<close>

theorem isDoubleClick_iff:
  "isDoubleClick cfg s \<longleftrightarrow>
     (\<exists>d l. eDown s = Some d \<and> eLastDown s = Some l
        \<and> 0 < timeStamp d - timeStamp l
        \<and> timeStamp d - timeStamp l < doubleClickTime cfg
        \<and> dist2 (clientX d) (clientY d) (clientX l) (clientY l) \<le> (3 * maxClickDrift cfg) ^ 2)"
  by (simp add: isDoubleClick_def hasSamePosition_def Let_def split: option.splits)

text \<open>
  With the default drift 6, two down-events 5 pixels and 100 ms apart have squared distance
  25: above \<open>3 * 6 = 18\<close>, so the test as the specification words it fails, and below
  \<open>(3 * 6)\<^sup>2 = 324\<close>, so the test of the code passes.
\<close>

theorem isDoubleClick_counterexample:
  "isDoubleClick initial_config
     ((new_CanvasPointer {})\<lparr>eDown := Some (pointer_event 0 1 15 10 100),
                              eLastDown := Some (pointer_event 0 1 10 10 0)\<rparr>)
   \<and> \<not> isDoubleClick_as_claimed initial_config
         (pointer_event 0 1 15 10 100) (pointer_event 0 1 10 10 0)"
  by (simp add: isDoubleClick_def isDoubleClick_as_claimed_def hasSamePosition_def dist2_def
      initial_config_def new_CanvasPointer_def pointer_event_def)

section \<open>Reset\<close>

lemma clear_session_idem: "clear_session (clear_session s) = clear_session s"
  by (cases "clearEventsOnReset s") (simp_all add: clear_session_def)

lemma release_held_idem: "release_held (release_held s) = release_held s"
  by (simp add: release_held_def hasPointerCapture_def releasePointerCapture_def Let_def)

lemma clear_release_commute: "clear_session (release_held s) = release_held (clear_session s)"
  by (cases "clearEventsOnReset s")
     (simp_all add: clear_session_def release_held_def hasPointerCapture_def releasePointerCapture_def Let_def)

lemma finally_slot_clear: "finally_slot (clear_session s) = finally_slot s"
  by (simp add: clear_session_def Let_def)

lemma finally_slot_release: "finally_slot (release_held s) = finally_slot s"
  by (simp add: release_held_def releasePointerCapture_def Let_def)

lemma trace_clear: "trace (clear_session s) = trace s"
  by (simp add: clear_session_def Let_def)

lemma trace_release:
  "trace (release_held s) =
     trace s @ (if pointer_arg (activePointerId s) \<in> element s
                then [ReleasePointerCapture (pointer_arg (activePointerId s))] else [])"
  by (simp add: release_held_def hasPointerCapture_def releasePointerCapture_def Let_def)

lemma reset_settled:
  "finally_slot s = None \<Longrightarrow> reset s = (Returned (), release_held (clear_session s))"
proof -
  assume h: "finally_slot s = None"
  then have "s\<lparr>finally_slot := None\<rparr> = s" by (cases s) simp
  then have "set_finally None s = (Returned (), s)"
    by (simp only: set_finally_empty [OF h])
  then show ?thesis by (simp add: reset_def)
qed

lemma reset_returned:
  "fst (reset s) = Returned () \<Longrightarrow>
   reset s = (Returned (), release_held (clear_session (snd (set_finally None s))))"
  by (cases "set_finally None s"; cases "fst (set_finally None s)") (auto simp add: reset_def)

lemma reset_idem:
  assumes "fst (reset s) = Returned ()"
  shows "reset (snd (reset s)) = (Returned (), snd (reset s))"
proof -
  let ?s1 = "snd (set_finally None s)"
  have r: "reset s = (Returned (), release_held (clear_session ?s1))"
    using assms by (rule reset_returned)
  have "finally_slot (release_held (clear_session ?s1)) = None"
    by (simp add: set_finally_stores finally_slot_clear finally_slot_release)
  then have "reset (release_held (clear_session ?s1)) =
      (Returned (), release_held (clear_session (release_held (clear_session ?s1))))"
    by (rule reset_settled)
  also have "release_held (clear_session (release_held (clear_session ?s1))) =
      release_held (clear_session ?s1)"
    by (simp add: clear_release_commute release_held_idem clear_session_idem)
  finally show ?thesis by (simp add: r)
qed


lemma fired_since_append: "trace s' = trace s @ xs \<Longrightarrow> fired_since s s' = xs"
  by (simp add: fired_since_def)

lemma reset_thrown:
  assumes "fst (reset s) = Thrown"
  shows "\<exists>f. finally_slot s = Some f \<and> throws f"
proof (cases "finally_slot s")
  case None
  then show ?thesis using assms by (simp add: reset_def set_finally_empty)
next
  case (Some f)
  then show ?thesis using assms by (cases "throws f") (simp_all add: reset_def set_finally_returning)
qed

lemma outcome_unit_cases: "(r :: unit outcome) = Returned () \<or> r = Thrown"
  by (cases r) simp_all

lemma release_held_trace:
  "\<exists>R. trace (release_held s) = trace s @ R \<and> length R \<le> 1
       \<and> filter is_gesture R = [] \<and> filter is_finally R = []"
  by (simp add: trace_release)

text \<open>
  C6. Over two calls of \<open>reset\<close> in a row, capture is released at most once; the second call
  does not call the finally callback, since the first call left the slot empty; and when
  the first call returned, the second changes nothing at all, so it releases nothing.
\<close>

theorem reset_twice:
  "length (filter is_release (fired_since s (snd (reset (snd (reset s)))))) \<le> 1
   \<and> filter is_finally (fired_since (snd (reset s)) (snd (reset (snd (reset s))))) = []
   \<and> finally_slot (snd (reset s)) = None
   \<and> (fst (reset s) = Returned () \<longrightarrow> reset (snd (reset s)) = (Returned (), snd (reset s)))"
proof (cases "fst (reset s) = Thrown")
  case True
  then obtain f where f: "finally_slot s = Some f" "throws f"
    using reset_thrown by blast
  let ?s1 = "s\<lparr>trace := trace s @ [Finally f], finally_slot := None\<rparr>"
  have r1: "reset s = (Thrown, ?s1)" using f by (rule reset_throwing)
  have r2: "reset ?s1 = (Returned (), release_held (clear_session ?s1))"
    by (rule reset_settled) simp
  obtain R where R: "trace (release_held (clear_session ?s1)) = trace (clear_session ?s1) @ R"
    "length R \<le> 1" "filter is_finally R = []"
    using release_held_trace by blast
  have t1: "trace (release_held (clear_session ?s1)) = trace ?s1 @ R"
    using R(1) by (simp add: trace_clear)
  have t: "trace (release_held (clear_session ?s1)) = trace s @ (Finally f # R)"
    using R(1) by (simp add: trace_clear)
  have "length (filter is_release (Finally f # R)) \<le> 1"
    using R(2) by (simp add: le_trans [OF length_filter_le])
  moreover have "fired_since s (release_held (clear_session ?s1)) = Finally f # R"
    using t by (rule fired_since_append)
  moreover have "fired_since ?s1 (release_held (clear_session ?s1)) = R"
    using t1 by (rule fired_since_append)
  ultimately show ?thesis using True R(3) by (simp add: r1 r2)
next
  case False
  then have ret: "fst (reset s) = Returned ()"
    using outcome_unit_cases [of "fst (reset s)"] by simp
  let ?s0 = "snd (set_finally None s)"
  have r1: "reset s = (Returned (), release_held (clear_session ?s0))"
    using ret by (rule reset_returned)
  have idem: "reset (snd (reset s)) = (Returned (), snd (reset s))"
    using ret by (rule reset_idem)
  obtain R where R: "trace (release_held (clear_session ?s0)) = trace (clear_session ?s0) @ R"
    "length R \<le> 1"
    using release_held_trace by blast
  let ?F = "calls_of Finally (finally_slot s)"
  have t: "trace (snd (reset s)) = trace s @ (?F @ R)"
    using R(1) by (simp add: r1 set_finally_trace trace_clear)
  have "filter is_release ?F = []" by (simp add: calls_of_def split: option.splits)
  then have "length (filter is_release (?F @ R)) \<le> 1"
    using R(2) by (simp add: le_trans [OF length_filter_le])
  moreover have "fired_since s (snd (reset s)) = ?F @ R"
    using t by (rule fired_since_append)
  moreover have "fired_since (snd (reset s)) (snd (reset s)) = []"
    by (simp add: fired_since_def)
  moreover have "finally_slot (snd (reset s)) = None"
    by (simp add: r1 set_finally_stores finally_slot_clear finally_slot_release)
  ultimately show ?thesis using idem by simp
qed


theorem reset_twice_witness:
  "fst (reset ((new_CanvasPointer {1})\<lparr>activePointerId := Some 1,
          finally_slot := Some \<lparr>name = 1, throws = False\<rparr>\<rparr>)) = Returned ()
   \<and> reset (snd (reset ((new_CanvasPointer {1})\<lparr>activePointerId := Some 1,
          finally_slot := Some \<lparr>name = 1, throws = False\<rparr>\<rparr>)))
     = (Returned (), snd (reset ((new_CanvasPointer {1})\<lparr>activePointerId := Some 1,
          finally_slot := Some \<lparr>name = 1, throws = False\<rparr>\<rparr>)))
   \<and> fired_since ((new_CanvasPointer {1})\<lparr>activePointerId := Some 1,
          finally_slot := Some \<lparr>name = 1, throws = False\<rparr>\<rparr>)
        (snd (reset (snd (reset ((new_CanvasPointer {1})\<lparr>activePointerId := Some 1,
          finally_slot := Some \<lparr>name = 1, throws = False\<rparr>\<rparr>)))))
     = [Finally \<lparr>name = 1, throws = False\<rparr>, ReleasePointerCapture 1]"
proof -
  let ?s = "(new_CanvasPointer {1})\<lparr>activePointerId := Some 1,
          finally_slot := Some \<lparr>name = 1, throws = False\<rparr>\<rparr>"
  have r: "fst (reset ?s) = Returned ()"
    by (simp add: reset_def set_finally_def invoke_opt_def invoke_def)
  have i: "reset (snd (reset ?s)) = (Returned (), snd (reset ?s))"
    using reset_twice [of ?s] r by simp
  have "trace (snd (reset ?s)) = trace ?s @ [Finally \<lparr>name = 1, throws = False\<rparr>, ReleasePointerCapture 1]"
    by (simp add: reset_def set_finally_def invoke_opt_def invoke_def new_CanvasPointer_def
        clear_session_def release_held_def pointer_arg_def hasPointerCapture_def
        releasePointerCapture_def)
  then have "fired_since ?s (snd (reset ?s)) = [Finally \<lparr>name = 1, throws = False\<rparr>, ReleasePointerCapture 1]"
    by (rule fired_since_append)
  with r i show ?thesis by simp
qed

section \<open>Completing a session\<close>

lemma invoke_opt_eq:
  "invoke_opt c slot s = (outcome_of slot, s\<lparr>trace := trace s @ calls_of c slot\<rparr>)"
  by (cases slot) (simp_all add: invoke_opt_def invoke_def calls_of_def outcome_of_def)

lemma set_finally_eq:
  "set_finally v s =
     (outcome_of (finally_slot s),
      s\<lparr>trace := trace s @ calls_of Finally (finally_slot s), finally_slot := v\<rparr>)"
  by (simp add: set_finally_def invoke_opt_eq)

lemma setDragStarted_fst: "fst (setDragStarted s) = outcome_of (onDragStart s)"
  by (cases "outcome_of (onDragStart s)") (simp_all add: setDragStarted_def invoke_opt_eq)

lemma setDragStarted_trace:
  "trace (snd (setDragStarted s)) = trace s @ calls_of DragStart (onDragStart s)"
  by (cases "outcome_of (onDragStart s)") (simp_all add: setDragStarted_def invoke_opt_eq)

lemma setDragStarted_frame:
  "finally_slot (snd (setDragStarted s)) = finally_slot s"
  "eMove (snd (setDragStarted s)) = eMove s"
  "eUp (snd (setDragStarted s)) = eUp s"
  "eDown (snd (setDragStarted s)) = eDown s"
  "onDragEnd (snd (setDragStarted s)) = onDragEnd s"
  "clearEventsOnReset (snd (setDragStarted s)) = clearEventsOnReset s"
  by (cases "outcome_of (onDragStart s)"; simp add: setDragStarted_def invoke_opt_eq)+

lemma filter_calls_of_gesture:
  "filter is_gesture (calls_of DragStart slot) = calls_of DragStart slot"
  "filter is_gesture (calls_of (\<lambda>f. Drag f e) slot) = calls_of (\<lambda>f. Drag f e) slot"
  "filter is_gesture (calls_of (\<lambda>f. DragEnd f e) slot) = calls_of (\<lambda>f. DragEnd f e) slot"
  "filter is_gesture (calls_of (\<lambda>f. Click f e) slot) = calls_of (\<lambda>f. Click f e) slot"
  "filter is_gesture (calls_of (\<lambda>f. DoubleClick f e) slot) = calls_of (\<lambda>f. DoubleClick f e) slot"
  "filter is_gesture (calls_of Finally slot) = []"
  by (simp_all add: calls_of_def split: option.splits)

lemma isDoubleClick_eUp: "isDoubleClick cfg (s\<lparr>eUp := x\<rparr>) = isDoubleClick cfg s"
  by (simp add: isDoubleClick_def split: option.splits)

text \<open>\<open>#completeClick\<close>, branch by branch.\<close>

lemma completeClick_dragging:
  "eDown s = Some d \<Longrightarrow> dragStarted s \<Longrightarrow>
   completeClick cfg e s =
     (outcome_of (onDragEnd s),
      s\<lparr>eUp := Some e, trace := trace s @ calls_of (\<lambda>f. DragEnd f e) (onDragEnd s)\<rparr>)"
  by (simp add: completeClick_def invoke_opt_eq)

lemma completeClick_teleport:
  "eDown s = Some d \<Longrightarrow> \<not> dragStarted s \<Longrightarrow> \<not> hasSamePosition e d (maxClickDrift2 cfg) \<Longrightarrow>
   completeClick cfg e s =
     and_then (setDragStarted (s\<lparr>eUp := Some e\<rparr>))
       (\<lambda>s2. invoke_opt (\<lambda>f. DragEnd f e) (onDragEnd s2) s2)"
  by (simp add: completeClick_def)

lemma completeClick_double:
  "eDown s = Some d \<Longrightarrow> \<not> dragStarted s \<Longrightarrow> hasSamePosition e d (maxClickDrift2 cfg) \<Longrightarrow>
   onDoubleClick s \<noteq> None \<Longrightarrow> isDoubleClick cfg s \<Longrightarrow>
   completeClick cfg e s =
     and_then (invoke_opt (\<lambda>f. DoubleClick f e) (onDoubleClick s) (s\<lparr>eUp := Some e\<rparr>))
       (\<lambda>s2. (Returned (), s2\<lparr>eLastDown := None\<rparr>))"
  by (simp add: completeClick_def isDoubleClick_eUp)

lemma completeClick_single:
  "eDown s = Some d \<Longrightarrow> \<not> dragStarted s \<Longrightarrow> hasSamePosition e d (maxClickDrift2 cfg) \<Longrightarrow>
   \<not> (onDoubleClick s \<noteq> None \<and> isDoubleClick cfg s) \<Longrightarrow>
   completeClick cfg e s =
     and_then (invoke_opt (\<lambda>f. Click f e) (onClick s) (s\<lparr>eUp := Some e\<rparr>))
       (\<lambda>s2. (Returned (), s2\<lparr>eLastDown := Some d\<rparr>))"
  by (auto simp add: completeClick_def Let_def isDoubleClick_eUp)


lemma and_then_alt: "and_then p k = (if fst p = Thrown then (Thrown, snd p) else k (snd p))"
  by (cases p; cases "fst p") auto



lemma filter_calls_of_drag:
  "filter is_drag (calls_of DragStart slot) = []"
  "filter is_drag (calls_of (\<lambda>f. DragEnd f e) slot) = []"
  "filter is_drag (calls_of (\<lambda>f. Click f e) slot) = []"
  "filter is_drag (calls_of (\<lambda>f. DoubleClick f e) slot) = []"
  "filter is_drag (calls_of Finally slot) = []"
  by (simp_all add: calls_of_def split: option.splits)

lemma filter_calls_of_finally:
  "filter is_finally (calls_of DragStart slot) = []"
  "filter is_finally (calls_of (\<lambda>f. Drag f e) slot) = []"
  "filter is_finally (calls_of (\<lambda>f. DragEnd f e) slot) = []"
  "filter is_finally (calls_of (\<lambda>f. Click f e) slot) = []"
  "filter is_finally (calls_of (\<lambda>f. DoubleClick f e) slot) = []"
  by (simp_all add: calls_of_def split: option.splits)



lemma not_Thrown: "((r :: unit outcome) \<noteq> Thrown) = (r = Returned ())"
  by (cases r) simp_all

lemma reset_eq:
  "reset s =
     (outcome_of (finally_slot s),
      if outcome_of (finally_slot s) = Thrown
      then s\<lparr>trace := trace s @ calls_of Finally (finally_slot s), finally_slot := None\<rparr>
      else release_held (clear_session
             (s\<lparr>trace := trace s @ calls_of Finally (finally_slot s), finally_slot := None\<rparr>)))"
  by (auto simp add: reset_def set_finally_eq and_then_alt not_Thrown)

lemma reset_calls:
  "\<exists>X. trace (snd (reset s)) = trace s @ X \<and> filter is_gesture X = [] \<and> filter is_drag X = []"
  by (simp add: reset_eq trace_release trace_clear filter_calls_of_gesture filter_calls_of_drag)

lemma up_accepted:
  "Some (button e) = map_option button (eDown s) \<Longrightarrow>
   snd (up cfg e s) =
     (if fst (completeClick cfg e s) = Thrown then snd (completeClick cfg e s)
      else snd (reset (snd (completeClick cfg e s))))"
  by (simp add: up_def and_then_alt Let_def)

lemma up_returned:
  assumes "Some (button e) = map_option button (eDown s)" and "up cfg e s = (Returned b, s')"
  shows "fst (completeClick cfg e s) = Returned () \<and> s' = snd (reset (snd (completeClick cfg e s)))"
  using assms by (simp add: up_def and_then_alt Let_def not_Thrown split: if_splits)

lemma up_calls:
  assumes "Some (button e) = map_option button (eDown s)"
  shows "\<exists>X. trace (snd (up cfg e s)) = trace (snd (completeClick cfg e s)) @ X
            \<and> filter is_gesture X = [] \<and> filter is_drag X = []"
proof (cases "fst (completeClick cfg e s) = Thrown")
  case True
  then show ?thesis by (simp add: up_accepted [OF assms])
next
  case False
  then show ?thesis using reset_calls [of "snd (completeClick cfg e s)"]
    by (simp add: up_accepted [OF assms])
qed

lemma completeClick_teleport_trace:
  assumes "eDown s = Some d" and "\<not> dragStarted s"
    and "\<not> hasSamePosition e d (maxClickDrift2 cfg)"
    and "fst (completeClick cfg e s) = Returned ()"
  shows "trace (snd (completeClick cfg e s)) =
           trace s @ calls_of DragStart (onDragStart s) @ calls_of (\<lambda>f. DragEnd f e) (onDragEnd s)"
  using assms(4) unfolding completeClick_teleport [OF assms(1-3)]
  by (simp add: and_then_alt setDragStarted_fst setDragStarted_trace setDragStarted_frame
      invoke_opt_eq split: if_splits)

text \<open>
  C3, as the code has it. A session is closed by \<open>up\<close> when the call, for an event with the
  session's button, returns: then \<open>reset\<close> has run. If the session had not started a drag
  and the squared distance between the closing event and the down-event exceeds the squared
  drift, \<open>maxClickDrift\<^sup>2\<close> (the cached \<open>#maxClickDrift2\<close>, not the drift itself), the
  gesture callbacks this call of \<open>up\<close> makes are \<open>onDragStart\<close> (if registered) and then
  \<open>onDragEnd\<close> with the closing event (if registered), in that order, and no others:
  neither \<open>onClick\<close> nor \<open>onDoubleClick\<close>.
\<close>

theorem teleport_up_fires_drag_start_then_drag_end:
  assumes "eDown s = Some d" and "button e = button d" and "\<not> dragStarted s"
    and "dist2 (clientX e) (clientY e) (clientX d) (clientY d) > maxClickDrift2 cfg"
    and "up cfg e s = (Returned b, s')"
  shows "filter is_gesture (fired_since s s') =
           calls_of DragStart (onDragStart s) @ calls_of (\<lambda>f. DragEnd f e) (onDragEnd s)"
proof -
  have far: "\<not> hasSamePosition e d (maxClickDrift2 cfg)"
    using assms(4) by (simp add: hasSamePosition_def)
  have btn: "Some (button e) = map_option button (eDown s)"
    using assms(1,2) by simp
  have ret: "fst (completeClick cfg e s) = Returned ()"
    and s': "s' = snd (reset (snd (completeClick cfg e s)))"
    using up_returned [OF btn assms(5)] by simp_all
  obtain X where X: "trace s' = trace (snd (completeClick cfg e s)) @ X" "filter is_gesture X = []"
    using reset_calls [of "snd (completeClick cfg e s)"] s' by blast
  let ?G = "calls_of DragStart (onDragStart s) @ calls_of (\<lambda>f. DragEnd f e) (onDragEnd s)"
  have "trace s' = trace s @ (?G @ X)"
    using X(1) completeClick_teleport_trace [OF assms(1,3) far ret] by simp
  then have "fired_since s s' = ?G @ X" by (rule fired_since_append)
  then show ?thesis using X(2) by (simp add: filter_calls_of_gesture)
qed

theorem teleport_up_fires_drag_start_then_drag_end_witness:
  "up initial_config (pointer_event 0 0 100 100 10)
     ((new_CanvasPointer {1})\<lparr>eDown := Some (pointer_event 0 1 0 0 0),
        activePointerId := Some 1,
        onDragStart := Some \<lparr>name = 1, throws = False\<rparr>,
        onDragEnd := Some \<lparr>name = 2, throws = False\<rparr>,
        onClick := Some \<lparr>name = 3, throws = False\<rparr>,
        onDoubleClick := Some \<lparr>name = 4, throws = False\<rparr>\<rparr>)
   = (Returned False,
      (new_CanvasPointer {})\<lparr>activePointerId := Some 1,
        trace := [DragStart \<lparr>name = 1, throws = False\<rparr>,
                  DragEnd \<lparr>name = 2, throws = False\<rparr> (pointer_event 0 0 100 100 10),
                  ReleasePointerCapture 1]\<rparr>)
   \<and> filter is_gesture (fired_since
       ((new_CanvasPointer {1})\<lparr>eDown := Some (pointer_event 0 1 0 0 0),
        activePointerId := Some 1,
        onDragStart := Some \<lparr>name = 1, throws = False\<rparr>,
        onDragEnd := Some \<lparr>name = 2, throws = False\<rparr>,
        onClick := Some \<lparr>name = 3, throws = False\<rparr>,
        onDoubleClick := Some \<lparr>name = 4, throws = False\<rparr>\<rparr>)
       ((new_CanvasPointer {})\<lparr>activePointerId := Some 1,
        trace := [DragStart \<lparr>name = 1, throws = False\<rparr>,
                  DragEnd \<lparr>name = 2, throws = False\<rparr> (pointer_event 0 0 100 100 10),
                  ReleasePointerCapture 1]\<rparr>))
     = [DragStart \<lparr>name = 1, throws = False\<rparr>,
        DragEnd \<lparr>name = 2, throws = False\<rparr> (pointer_event 0 0 100 100 10)]"
proof -
  let ?s = "(new_CanvasPointer {1})\<lparr>eDown := Some (pointer_event 0 1 0 0 0),
        activePointerId := Some 1,
        onDragStart := Some \<lparr>name = 1, throws = False\<rparr>,
        onDragEnd := Some \<lparr>name = 2, throws = False\<rparr>,
        onClick := Some \<lparr>name = 3, throws = False\<rparr>,
        onDoubleClick := Some \<lparr>name = 4, throws = False\<rparr>\<rparr>"
  let ?s' = "(new_CanvasPointer {})\<lparr>activePointerId := Some 1,
        trace := [DragStart \<lparr>name = 1, throws = False\<rparr>,
                  DragEnd \<lparr>name = 2, throws = False\<rparr> (pointer_event 0 0 100 100 10),
                  ReleasePointerCapture 1]\<rparr>"
  have u: "up initial_config (pointer_event 0 0 100 100 10) ?s = (Returned False, ?s')"
    by (simp add: up_def completeClick_def setDragStarted_def reset_def set_finally_def
        invoke_opt_def invoke_def clear_session_def release_held_def pointer_arg_def
        hasPointerCapture_def releasePointerCapture_def hasSamePosition_def dist2_def
        initial_config_def new_CanvasPointer_def pointer_event_def)
  have "filter is_gesture (fired_since ?s ?s') =
      calls_of DragStart (onDragStart ?s)
        @ calls_of (\<lambda>f. DragEnd f (pointer_event 0 0 100 100 10)) (onDragEnd ?s)"
    by (rule teleport_up_fires_drag_start_then_drag_end
          [where d = "pointer_event 0 1 0 0 0" and cfg = initial_config, OF _ _ _ _ u])
       (simp_all add: pointer_event_def dist2_def initial_config_def new_CanvasPointer_def)
  with u show ?thesis by (simp add: calls_of_def)
qed

text \<open>
  With the default drift 6, an up-event 3 pixels from the down-event has squared distance
  9: above the drift threshold 6, and not above its square 36. The session had not
  started a drag, yet \<open>up\<close> takes the click branch: it calls \<open>onClick\<close> and neither
  \<open>onDragStart\<close> nor \<open>onDragEnd\<close>, both registered, and returns true.
\<close>

theorem teleport_up_counterexample:
  "\<not> dragStarted
       ((new_CanvasPointer {1})\<lparr>eDown := Some (pointer_event 0 1 0 0 0),
          activePointerId := Some 1,
          onDragStart := Some \<lparr>name = 1, throws = False\<rparr>,
          onDragEnd := Some \<lparr>name = 2, throws = False\<rparr>,
          onClick := Some \<lparr>name = 3, throws = False\<rparr>\<rparr>)
   \<and> button (pointer_event 0 0 3 0 10) = button (pointer_event 0 1 0 0 0)
   \<and> dist2 3 0 0 0 > maxClickDrift initial_config
   \<and> up initial_config (pointer_event 0 0 3 0 10)
       ((new_CanvasPointer {1})\<lparr>eDown := Some (pointer_event 0 1 0 0 0),
          activePointerId := Some 1,
          onDragStart := Some \<lparr>name = 1, throws = False\<rparr>,
          onDragEnd := Some \<lparr>name = 2, throws = False\<rparr>,
          onClick := Some \<lparr>name = 3, throws = False\<rparr>\<rparr>)
     = (Returned True,
        (new_CanvasPointer {})\<lparr>activePointerId := Some 1,
          eLastDown := Some (pointer_event 0 1 0 0 0),
          trace := [Click \<lparr>name = 3, throws = False\<rparr> (pointer_event 0 0 3 0 10),
                    ReleasePointerCapture 1]\<rparr>)"
  by (simp add: up_def completeClick_def reset_def set_finally_def
      invoke_opt_def invoke_def clear_session_def release_held_def pointer_arg_def
      hasPointerCapture_def releasePointerCapture_def hasSamePosition_def dist2_def
      isDoubleClick_def initial_config_def new_CanvasPointer_def pointer_event_def)

section \<open>Moves, and assignments to finally\<close>


lemma move_held:
  assumes "eDown s = Some d" and "buttons e AND buttons d \<noteq> 0"
  shows "move cfg e s =
     and_then (invoke_opt (\<lambda>f. Drag f e) (onDrag s) (s\<lparr>eMove := Some e\<rparr>)) (\<lambda>s2.
       if dragStarted s2 then (Returned (), s2)
       else if timeStamp e - timeStamp d > bufferTime cfg
               \<or> \<not> hasSamePosition e d (maxClickDrift2 cfg)
            then setDragStarted s2 else (Returned (), s2))"
proof -
  have "buttons e \<noteq> 0" using assms(2) by auto
  then show ?thesis using assms by (simp add: move_def Let_def cong del: if_weak_cong)
qed

lemma move_held_finally:
  assumes "eDown s = Some d" and "buttons e AND buttons d \<noteq> 0"
  shows "finally_slot (snd (move cfg e s)) = finally_slot s"
    and "\<exists>X. trace (snd (move cfg e s)) = trace s @ X \<and> filter is_finally X = []"
  unfolding move_held [OF assms]
  by (simp_all add: and_then_alt invoke_opt_eq setDragStarted_frame setDragStarted_trace
      filter_calls_of_finally)

lemma move_idle: "eDown s = None \<Longrightarrow> move cfg e s = (Returned (), s)"
  by (simp add: move_def)

lemma fired_since_self: "fired_since s s = []"
  by (simp add: fired_since_def)

text \<open>
  C4. An assignment to \<open>finally\<close> calls the callback the slot held (if any) and then stores
  the new value. After \<open>finally = f1\<close> and then \<open>finally = f2\<close>: the first assignment
  called only what the slot held before; the second called \<open>f1\<close>, once, and nothing else;
  the slot holds \<open>f2\<close>, which neither assignment called as the value it stored. It stays
  in the slot, with no call of a finally callback, through the calls that do not reach
  \<open>reset\<close>: a \<open>move\<close> without a session or with a session button still pressed, and an
  \<open>up\<close> that is ignored.
\<close>

theorem finally_assigned_twice:
  assumes "set_finally (Some f1) s = (r1, s1)" and "set_finally (Some f2) s1 = (r2, s2)"
  shows "fired_since s s1 = calls_of Finally (finally_slot s)
         \<and> fired_since s1 s2 = [Finally f1]
         \<and> finally_slot s2 = Some f2
         \<and> ((eDown s2 = None \<or> (\<exists>d. eDown s2 = Some d \<and> buttons e AND buttons d \<noteq> 0)) \<longrightarrow>
              finally_slot (snd (move cfg e s2)) = Some f2
              \<and> filter is_finally (fired_since s2 (snd (move cfg e s2))) = [])
         \<and> (Some (button e) \<noteq> map_option button (eDown s2) \<longrightarrow>
              up cfg e s2 = (Returned False, s2))"
proof -
  have s1: "s1 = snd (set_finally (Some f1) s)" and s2: "s2 = snd (set_finally (Some f2) s1)"
    using assms by simp_all
  have slot1: "finally_slot s1 = Some f1" and slot2: "finally_slot s2 = Some f2"
    by (simp_all add: s1 s2 set_finally_stores)
  have "trace s1 = trace s @ calls_of Finally (finally_slot s)"
    by (simp add: s1 set_finally_trace)
  then have a: "fired_since s s1 = calls_of Finally (finally_slot s)"
    by (rule fired_since_append)
  have "trace s2 = trace s1 @ [Finally f1]"
    by (simp add: s2 set_finally_trace slot1 calls_of_def)
  then have b: "fired_since s1 s2 = [Finally f1]"
    by (rule fired_since_append)
  have c: "finally_slot (snd (move cfg e s2)) = Some f2
           \<and> filter is_finally (fired_since s2 (snd (move cfg e s2))) = []"
    if "eDown s2 = None \<or> (\<exists>d. eDown s2 = Some d \<and> buttons e AND buttons d \<noteq> 0)"
    using that
  proof
    assume "eDown s2 = None"
    then show ?thesis by (simp add: move_idle slot2 fired_since_self)
  next
    assume "\<exists>d. eDown s2 = Some d \<and> buttons e AND buttons d \<noteq> 0"
    then obtain d where d: "eDown s2 = Some d" "buttons e AND buttons d \<noteq> 0" by blast
    obtain X where X: "trace (snd (move cfg e s2)) = trace s2 @ X" "filter is_finally X = []"
      using move_held_finally(2) [OF d] by blast
    have "fired_since s2 (snd (move cfg e s2)) = X"
      using X(1) by (rule fired_since_append)
    then show ?thesis using X(2) by (simp add: move_held_finally(1) [OF d] slot2)
  qed
  have d: "up cfg e s2 = (Returned False, s2)"
    if "Some (button e) \<noteq> map_option button (eDown s2)"
    using that by (simp add: up_def)
  show ?thesis using a b c d slot2 by blast
qed


theorem finally_assigned_twice_witness:
  "set_finally (Some \<lparr>name = 1, throws = False\<rparr>)
     ((new_CanvasPointer {1})\<lparr>eDown := Some (pointer_event 0 1 0 0 0)\<rparr>)
   = (Returned (),
      (new_CanvasPointer {1})\<lparr>eDown := Some (pointer_event 0 1 0 0 0),
         finally_slot := Some \<lparr>name = 1, throws = False\<rparr>\<rparr>)
   \<and> set_finally (Some \<lparr>name = 2, throws = False\<rparr>)
      ((new_CanvasPointer {1})\<lparr>eDown := Some (pointer_event 0 1 0 0 0),
         finally_slot := Some \<lparr>name = 1, throws = False\<rparr>\<rparr>)
   = (Returned (),
      (new_CanvasPointer {1})\<lparr>eDown := Some (pointer_event 0 1 0 0 0),
         finally_slot := Some \<lparr>name = 2, throws = False\<rparr>,
         trace := [Finally \<lparr>name = 1, throws = False\<rparr>]\<rparr>)
   \<and> buttons (pointer_event 0 1 1 1 5) AND buttons (pointer_event 0 1 0 0 0) \<noteq> 0
   \<and> finally_slot (snd (move initial_config (pointer_event 0 1 1 1 5)
        ((new_CanvasPointer {1})\<lparr>eDown := Some (pointer_event 0 1 0 0 0),
           finally_slot := Some \<lparr>name = 2, throws = False\<rparr>,
           trace := [Finally \<lparr>name = 1, throws = False\<rparr>]\<rparr>)))
     = Some \<lparr>name = 2, throws = False\<rparr>
   \<and> button (pointer_event 2 1 1 1 5) \<noteq> button (pointer_event 0 1 0 0 0)
   \<and> up initial_config (pointer_event 2 1 1 1 5)
        ((new_CanvasPointer {1})\<lparr>eDown := Some (pointer_event 0 1 0 0 0),
           finally_slot := Some \<lparr>name = 2, throws = False\<rparr>,
           trace := [Finally \<lparr>name = 1, throws = False\<rparr>]\<rparr>)
     = (Returned False,
        (new_CanvasPointer {1})\<lparr>eDown := Some (pointer_event 0 1 0 0 0),
           finally_slot := Some \<lparr>name = 2, throws = False\<rparr>,
           trace := [Finally \<lparr>name = 1, throws = False\<rparr>]\<rparr>)"
proof -
  let ?d = "pointer_event 0 1 0 0 0"
  let ?f1 = "\<lparr>name = 1, throws = False\<rparr>"
  let ?f2 = "\<lparr>name = 2, throws = False\<rparr>"
  let ?s = "(new_CanvasPointer {1})\<lparr>eDown := Some ?d\<rparr>"
  let ?s1 = "(new_CanvasPointer {1})\<lparr>eDown := Some ?d, finally_slot := Some ?f1\<rparr>"
  let ?s2 = "(new_CanvasPointer {1})\<lparr>eDown := Some ?d, finally_slot := Some ?f2,
               trace := [Finally ?f1]\<rparr>"
  have a1: "set_finally (Some ?f1) ?s = (Returned (), ?s1)"
    by (simp add: set_finally_def invoke_opt_def new_CanvasPointer_def)
  have a2: "set_finally (Some ?f2) ?s1 = (Returned (), ?s2)"
    by (simp add: set_finally_def invoke_opt_def invoke_def new_CanvasPointer_def)
  have held: "buttons (pointer_event 0 1 1 1 5) AND buttons ?d \<noteq> 0"
    by (simp add: pointer_event_def)
  have other: "button (pointer_event 2 1 1 1 5) \<noteq> button ?d"
    by (simp add: pointer_event_def)
  have m: "finally_slot (snd (move initial_config (pointer_event 0 1 1 1 5) ?s2)) = Some ?f2"
    using finally_assigned_twice [OF a1 a2, of "pointer_event 0 1 1 1 5" initial_config] held
    by simp
  have u: "up initial_config (pointer_event 2 1 1 1 5) ?s2 = (Returned False, ?s2)"
    using finally_assigned_twice [OF a1 a2, of "pointer_event 2 1 1 1 5" initial_config] other
    by simp
  show ?thesis using a1 a2 held other m u by simp
qed

section \<open>A move that closes the session\<close>

lemma release_held_events:
  "eUp (release_held s) = eUp s"
  "eMove (release_held s) = eMove s"
  "eDown (release_held s) = eDown s"
  "dragStarted (release_held s) = dragStarted s"
  by (simp_all add: release_held_def releasePointerCapture_def Let_def)

lemma clear_session_events:
  "eUp (clear_session s) = (if clearEventsOnReset s then None else eUp s)"
  "eMove (clear_session s) = (if clearEventsOnReset s then None else eMove s)"
  "dragStarted (clear_session s) = False"
  by (simp_all add: clear_session_def Let_def)





section \<open>A session that ends as a click\<close>

lemma move_near:
  assumes "eDown s = Some d" and "\<not> dragStarted s"
    and "buttons m AND buttons d \<noteq> 0"
    and "hasSamePosition m d (maxClickDrift2 cfg)"
    and "timeStamp m - timeStamp d \<le> bufferTime cfg"
  shows "snd (move cfg m s) =
           s\<lparr>eMove := Some m, trace := trace s @ calls_of (\<lambda>f. Drag f m) (onDrag s)\<rparr>"
  unfolding move_held [OF assms(1,3)] using assms(2,4,5)
  by (simp add: and_then_alt invoke_opt_eq)

lemma moves_near:
  assumes "eDown s = Some d" and "\<not> dragStarted s"
    and "\<forall>m\<in>set ms. buttons m AND buttons d \<noteq> 0
           \<and> hasSamePosition m d (maxClickDrift2 cfg)
           \<and> timeStamp m - timeStamp d \<le> bufferTime cfg"
  shows "moves cfg ms s =
           s\<lparr>eMove := (if ms = [] then eMove s else Some (last ms)),
             trace := trace s @ concat (map (\<lambda>m. calls_of (\<lambda>f. Drag f m) (onDrag s)) ms)\<rparr>"
  using assms
proof (induction ms arbitrary: s)
  case Nil
  then show ?case by simp
next
  case (Cons m ms)
  let ?s1 = "s\<lparr>eMove := Some m, trace := trace s @ calls_of (\<lambda>f. Drag f m) (onDrag s)\<rparr>"
  have step: "snd (move cfg m s) = ?s1"
    using Cons.prems by (intro move_near [where d = d]) simp_all
  have "moves cfg ms ?s1 =
          ?s1\<lparr>eMove := (if ms = [] then eMove ?s1 else Some (last ms)),
               trace := trace ?s1 @ concat (map (\<lambda>m. calls_of (\<lambda>f. Drag f m) (onDrag ?s1)) ms)\<rparr>"
    using Cons.prems by (intro Cons.IH) simp_all
  then show ?case by (simp add: step)
qed

lemma completeClick_click_trace:
  assumes "eDown s = Some d" and "\<not> dragStarted s"
    and "hasSamePosition e d (maxClickDrift2 cfg)"
  shows "trace (snd (completeClick cfg e s)) =
           trace s @ (if onDoubleClick s \<noteq> None \<and> isDoubleClick cfg s
                      then calls_of (\<lambda>f. DoubleClick f e) (onDoubleClick s)
                      else calls_of (\<lambda>f. Click f e) (onClick s))"
proof (cases "onDoubleClick s \<noteq> None \<and> isDoubleClick cfg s")
  case True
  then show ?thesis
    using completeClick_double [OF assms] by (simp add: and_then_alt invoke_opt_eq)
next
  case False
  then show ?thesis
    using completeClick_single [OF assms False] by (auto simp add: and_then_alt invoke_opt_eq)
qed

lemma down_returned:
  assumes "down d s0 = (Returned (), s1)"
  shows "eDown s1 = Some d" and "\<not> dragStarted s1"
  using assms
  by (auto simp add: down_def and_then_alt reset_eq setPointerCapture_def
      clear_session_events release_held_events split: if_splits)


lemma isDoubleClick_cong:
  "eDown t = eDown s \<Longrightarrow> eLastDown t = eLastDown s \<Longrightarrow>
   isDoubleClick cfg t = isDoubleClick cfg s"
  by (simp add: isDoubleClick_def split: option.splits)

lemma filter_gesture_drags:
  "filter is_gesture (concat (map (\<lambda>m. calls_of (\<lambda>f. Drag f m) dr) ms)) =
     concat (map (\<lambda>m. calls_of (\<lambda>f. Drag f m) dr) ms)"
  by (induction ms) (simp_all add: filter_calls_of_gesture)

text \<open>
  C1, as the code has it. A session is opened by a \<open>down\<close> that returned; the host then
  registers what callbacks it wants. The intervening move-events each keep a button of the
  session pressed, stay within the squared drift of the down-event and are at most
  \<open>bufferTime\<close> after it; the closing up-event has the session's button and is within the
  squared drift. Then the gesture callbacks called from the registration to the end of \<open>up\<close>
  are: \<open>onDrag\<close>, if registered, once for each move-event, in order; and then
  \<open>onDoubleClick\<close>, once, if it is registered and the double-click test passes, otherwise
  \<open>onClick\<close>, once, if it is registered, otherwise nothing. \<open>onDragStart\<close> and \<open>onDragEnd\<close>
  are never called.
\<close>

theorem click_session_calls:
  assumes "down d s0 = (Returned (), s1)"
    and "s = s1\<lparr>onClick := c, onDoubleClick := dc, onDragStart := ds, onDrag := dr,
                 onDragEnd := de, finally_slot := fin\<rparr>"
    and "\<forall>m\<in>set ms. buttons m AND buttons d \<noteq> 0
           \<and> dist2 (clientX m) (clientY m) (clientX d) (clientY d) \<le> maxClickDrift2 cfg
           \<and> timeStamp m - timeStamp d \<le> bufferTime cfg"
    and "button u = button d"
    and "dist2 (clientX u) (clientY u) (clientX d) (clientY d) \<le> maxClickDrift2 cfg"
  shows "filter is_gesture (fired_since s (snd (up cfg u (moves cfg ms s)))) =
           concat (map (\<lambda>m. calls_of (\<lambda>f. Drag f m) dr) ms)
           @ (if dc \<noteq> None \<and> isDoubleClick cfg s
              then calls_of (\<lambda>f. DoubleClick f u) dc
              else calls_of (\<lambda>f. Click f u) c)"
proof -
  let ?D = "concat (map (\<lambda>m. calls_of (\<lambda>f. Drag f m) dr) ms)"
  let ?C = "if dc \<noteq> None \<and> isDoubleClick cfg s
            then calls_of (\<lambda>f. DoubleClick f u) dc else calls_of (\<lambda>f. Click f u) c"
  let ?t = "moves cfg ms s"
  have open_s: "eDown s = Some d" "\<not> dragStarted s"
    using down_returned [OF assms(1)] by (simp_all add: assms(2))
  have cbs: "onDrag s = dr" "onDoubleClick s = dc" "onClick s = c"
    by (simp_all add: assms(2))
  have near: "\<forall>m\<in>set ms. buttons m AND buttons d \<noteq> 0
           \<and> hasSamePosition m d (maxClickDrift2 cfg)
           \<and> timeStamp m - timeStamp d \<le> bufferTime cfg"
    using assms(3) by (simp add: hasSamePosition_def)
  have t: "?t = s\<lparr>eMove := (if ms = [] then eMove s else Some (last ms)),
                   trace := trace s @ ?D\<rparr>"
    using moves_near [OF open_s near] by (simp add: cbs)
  have open_t: "eDown ?t = Some d" "\<not> dragStarted ?t"
    and cbs_t: "onDoubleClick ?t = dc" "onClick ?t = c"
    and dbl_t: "isDoubleClick cfg ?t = isDoubleClick cfg s"
    and trace_t: "trace ?t = trace s @ ?D"
    using open_s cbs by (simp_all add: t isDoubleClick_cong)
  have same: "hasSamePosition u d (maxClickDrift2 cfg)"
    using assms(5) by (simp add: hasSamePosition_def)
  have btn: "Some (button u) = map_option button (eDown ?t)"
    using assms(4) open_t(1) by simp
  have cc: "trace (snd (completeClick cfg u ?t)) = trace s @ ?D @ ?C"
    using completeClick_click_trace [OF open_t same] by (simp add: cbs_t dbl_t trace_t)
  obtain X where X: "trace (snd (up cfg u ?t)) = trace (snd (completeClick cfg u ?t)) @ X"
    "filter is_gesture X = []"
    using up_calls [OF btn] by blast
  have "trace (snd (up cfg u ?t)) = trace s @ (?D @ ?C @ X)"
    using X(1) cc by simp
  then have "fired_since s (snd (up cfg u ?t)) = ?D @ ?C @ X"
    by (rule fired_since_append)
  then show ?thesis
    using X(2) by (simp add: filter_gesture_drags filter_calls_of_gesture)
qed

lemma tracking_eq:
  "down d (new_CanvasPointer {}) = (Returned (), tracking d)"
  by (simp add: tracking_def down_def reset_def set_finally_def invoke_opt_def
      new_CanvasPointer_def)

theorem click_session_calls_witness:
  "down (pointer_event 0 1 0 0 0) (new_CanvasPointer {})
     = (Returned (), tracking (pointer_event 0 1 0 0 0))
   \<and> buttons (pointer_event 0 1 1 2 20) AND buttons (pointer_event 0 1 0 0 0) \<noteq> 0
   \<and> dist2 1 2 0 0 \<le> maxClickDrift2 initial_config
   \<and> (20 :: real) - 0 \<le> bufferTime initial_config
   \<and> dist2 2 2 0 0 \<le> maxClickDrift2 initial_config
   \<and> filter is_gesture (fired_since
        ((tracking (pointer_event 0 1 0 0 0))\<lparr>onClick := Some \<lparr>name = 1, throws = False\<rparr>,
           onDoubleClick := Some \<lparr>name = 2, throws = False\<rparr>, onDragStart := None,
           onDrag := Some \<lparr>name = 3, throws = False\<rparr>,
           onDragEnd := Some \<lparr>name = 4, throws = False\<rparr>, finally_slot := None\<rparr>)
        (snd (up initial_config (pointer_event 0 0 2 2 40)
           (moves initial_config [pointer_event 0 1 1 2 20]
              ((tracking (pointer_event 0 1 0 0 0))\<lparr>onClick := Some \<lparr>name = 1, throws = False\<rparr>,
                 onDoubleClick := Some \<lparr>name = 2, throws = False\<rparr>, onDragStart := None,
                 onDrag := Some \<lparr>name = 3, throws = False\<rparr>,
                 onDragEnd := Some \<lparr>name = 4, throws = False\<rparr>, finally_slot := None\<rparr>)))))
     = [Drag \<lparr>name = 3, throws = False\<rparr> (pointer_event 0 1 1 2 20),
        Click \<lparr>name = 1, throws = False\<rparr> (pointer_event 0 0 2 2 40)]"
proof -
  let ?d = "pointer_event 0 1 0 0 0"
  let ?s = "(tracking ?d)\<lparr>onClick := Some \<lparr>name = 1, throws = False\<rparr>,
           onDoubleClick := Some \<lparr>name = 2, throws = False\<rparr>, onDragStart := None,
           onDrag := Some \<lparr>name = 3, throws = False\<rparr>,
           onDragEnd := Some \<lparr>name = 4, throws = False\<rparr>, finally_slot := None\<rparr>"
  have h1: "down ?d (new_CanvasPointer {}) = (Returned (), tracking ?d)"
    by (rule tracking_eq)
  have h3: "\<forall>m\<in>set [pointer_event 0 1 1 2 20]. buttons m AND buttons ?d \<noteq> 0
           \<and> dist2 (clientX m) (clientY m) (clientX ?d) (clientY ?d) \<le> maxClickDrift2 initial_config
           \<and> timeStamp m - timeStamp ?d \<le> bufferTime initial_config"
    by (simp add: pointer_event_def dist2_def initial_config_def)
  have h4: "button (pointer_event 0 0 2 2 40) = button ?d"
    by (simp add: pointer_event_def)
  have h5: "dist2 (clientX (pointer_event 0 0 2 2 40)) (clientY (pointer_event 0 0 2 2 40))
              (clientX ?d) (clientY ?d) \<le> maxClickDrift2 initial_config"
    by (simp add: pointer_event_def dist2_def initial_config_def)
  have nd: "\<not> isDoubleClick initial_config ?s"
    by (simp add: isDoubleClick_def tracking_def down_def reset_def set_finally_def
        invoke_opt_def new_CanvasPointer_def and_then_alt clear_session_def release_held_def
        hasPointerCapture_def setPointerCapture_def pointer_arg_def)
  have "filter is_gesture (fired_since ?s
          (snd (up initial_config (pointer_event 0 0 2 2 40)
             (moves initial_config [pointer_event 0 1 1 2 20] ?s)))) =
        [Drag \<lparr>name = 3, throws = False\<rparr> (pointer_event 0 1 1 2 20),
         Click \<lparr>name = 1, throws = False\<rparr> (pointer_event 0 0 2 2 40)]"
    using click_session_calls [OF h1 refl h3 h4 h5] nd by (simp add: calls_of_def)
  moreover have "buttons (pointer_event 0 1 1 2 20) AND buttons ?d \<noteq> 0"
    "dist2 1 2 0 0 \<le> maxClickDrift2 initial_config"
    "(20 :: real) - 0 \<le> bufferTime initial_config"
    "dist2 2 2 0 0 \<le> maxClickDrift2 initial_config"
    by (simp_all add: pointer_event_def dist2_def initial_config_def)
  ultimately show ?thesis using h1 by simp
qed

text \<open>
  Two sessions within the bounds of the claim. With no callback registered, neither
  \<open>onClick\<close> nor \<open>onDoubleClick\<close> is called. With \<open>onClick\<close> and \<open>onDrag\<close> registered and
  one intervening move-event, \<open>onDrag\<close> is called for that move-event.
\<close>

theorem click_session_counterexample:
  "filter is_click (fired_since (tracking (pointer_event 0 1 0 0 0))
       (snd (up initial_config (pointer_event 0 0 2 2 40) (tracking (pointer_event 0 1 0 0 0)))))
     = []
   \<and> filter is_drag_family (fired_since
        ((tracking (pointer_event 0 1 0 0 0))\<lparr>onClick := Some \<lparr>name = 1, throws = False\<rparr>,
           onDrag := Some \<lparr>name = 3, throws = False\<rparr>\<rparr>)
        (snd (up initial_config (pointer_event 0 0 2 2 40)
           (moves initial_config [pointer_event 0 1 1 2 20]
              ((tracking (pointer_event 0 1 0 0 0))\<lparr>onClick := Some \<lparr>name = 1, throws = False\<rparr>,
                 onDrag := Some \<lparr>name = 3, throws = False\<rparr>\<rparr>)))))
     = [Drag \<lparr>name = 3, throws = False\<rparr> (pointer_event 0 1 1 2 20)]
   \<and> dist2 1 2 0 0 \<le> maxClickDrift2 initial_config
   \<and> dist2 2 2 0 0 \<le> maxClickDrift2 initial_config
   \<and> (40 :: real) - 0 < bufferTime initial_config"
  by (simp add: fired_since_def tracking_def down_def up_def move_def completeClick_def
      reset_def set_finally_def invoke_opt_def invoke_def clear_session_def release_held_def
      pointer_arg_def hasPointerCapture_def releasePointerCapture_def setPointerCapture_def
      hasSamePosition_def dist2_def isDoubleClick_def initial_config_def new_CanvasPointer_def
      pointer_event_def)

end
